theory Spec2Isabelle
  imports Main
begin

section \<open>The submit-and-poll workflow of ImageProcessor.tsx\<close>

text \<open>
  The component keeps two pieces of React state, \<open>status\<close> and \<open>statusMessage\<close>, and
  talks to the outside world through \<open>fetch\<close>, \<open>toast.error\<close>, \<open>logger.error\<close>,
  \<open>setTimeout\<close> and \<open>window.dispatchEvent\<close>. The model threads a state record through
  \<open>handleProcess\<close>; every state write and every outside call is appended, in program
  order, to the \<open>effects\<close> log of that record. What the network answers is an input:
  the outcome of the creation request and the list of outcomes of the status requests
  delivered so far.
\<close>

subsection \<open>Data\<close>

datatype ui_status = Idle | Uploading | Processing | Complete | Error

text \<open>The \<open>output\<close> field of a prediction: \<open>string | string[]\<close>.\<close>

datatype prediction_output = Single string | Many "string list"

text \<open>A parsed JSON body, with the fields the component reads.\<close>

record body =
  id_field :: string
  status_field :: string
  output_field :: "prediction_output option"
  error_field :: "string option"

text \<open>
  A value caught by \<open>catch (error)\<close>: the handler only asks whether it is an
  \<open>instanceof Error\<close>, and then reads its \<open>message\<close>.
\<close>

datatype thrown = ErrorObj string | NonError

text \<open>The outcome of awaiting a promise.\<close>

datatype 'a awaited = Resolves 'a | Rejects thrown

record response =
  ok :: bool
  json :: "body awaited"

type_synonym fetched = "response awaited"

text \<open>The JSON body of the creation request.\<close>

record request =
  model :: string
  image :: string
  scale_input :: int
  face_enhance :: bool

datatype effect =
    ToastError string
  | SetStatus ui_status
  | SetStatusMessage string
  | FetchPost string request
  | FetchGet string
  | Sleep nat
  | LoggerError string thrown
  | DispatchEvent string "string option"

record state =
  status :: ui_status
  statusMessage :: string
  effects :: "effect list"

text \<open>What \<open>handleProcess\<close> closes over: the props, the auth context and the controls.\<close>

record component =
  user :: "string option"
  selectedFile :: "string option"
  previewUrl :: "string option"
  scale :: int
  enhanceFace :: bool

text \<open>
  How a stretch of the workflow ends: it ran to its end, it threw, or it is still
  suspended at an \<open>await\<close> because no further answer has been delivered.
\<close>

datatype completion = Done | Threw thrown | Awaiting

datatype step = Continue | Break | Raise thrown

subsection \<open>Primitive operations\<close>

definition MODEL :: string where
  "MODEL = ''nightmareai/real-esrgan:f121d640bd286e1fdc67f9799164c1d5be36ff74576ee11c803ae5b665dd46aa''"

definition emit :: "effect \<Rightarrow> state \<Rightarrow> state" where
  "emit e st = st\<lparr>effects := effects st @ [e]\<rparr>"

definition setStatus :: "ui_status \<Rightarrow> state \<Rightarrow> state" where
  "setStatus s st = emit (SetStatus s) (st\<lparr>status := s\<rparr>)"

definition setStatusMessage :: "string \<Rightarrow> state \<Rightarrow> state" where
  "setStatusMessage m st = emit (SetStatusMessage m) (st\<lparr>statusMessage := m\<rparr>)"

text \<open>JavaScript's \<open>v || d\<close> on an optional string: absent and empty are both falsy.\<close>

definition or_else :: "string option \<Rightarrow> string \<Rightarrow> string" where
  "or_else v d = (case v of None \<Rightarrow> d | Some s \<Rightarrow> if s = [] then d else s)"

text \<open>\<open>Array.isArray(output) ? output[0] : output\<close>; \<open>None\<close> is \<open>undefined\<close>.\<close>

definition outputUrl_of :: "prediction_output option \<Rightarrow> string option" where
  "outputUrl_of out =
     (case out of
        None \<Rightarrow> None
      | Some (Single u) \<Rightarrow> Some u
      | Some (Many us) \<Rightarrow> (case us of [] \<Rightarrow> None | u # _ \<Rightarrow> Some u))"

definition sleep :: "nat \<Rightarrow> state \<Rightarrow> state" where
  "sleep ms st = emit (Sleep ms) st"

definition onProcessComplete :: "string option \<Rightarrow> state \<Rightarrow> state" where
  "onProcessComplete outputUrl st = emit (DispatchEvent ''processComplete'' outputUrl) st"

subsection \<open>The poll loop\<close>

text \<open>One run of the loop body (lines 81 to 102) on the answer to its status request.\<close>

definition poll_body :: "body \<Rightarrow> fetched \<Rightarrow> state \<Rightarrow> step \<times> state" where
  "poll_body prediction answer st =
     (let st1 = sleep 1000 st;
          st2 = emit (FetchGet (''/api/predictions/'' @ id_field prediction)) st1
      in case answer of
           Rejects e \<Rightarrow> (Raise e, st2)
         | Resolves statusResponse \<Rightarrow>
             if \<not> ok statusResponse
             then (Raise (ErrorObj ''Failed to check prediction status''), st2)
             else (case json statusResponse of
                     Rejects e \<Rightarrow> (Raise e, st2)
                   | Resolves updatedPrediction \<Rightarrow>
                       let st3 = setStatusMessage
                                   (''Processing: '' @ status_field updatedPrediction) st2
                       in if status_field updatedPrediction = ''failed''
                          then (Raise (ErrorObj (or_else (error_field updatedPrediction)
                                                   ''Processing failed'')), st3)
                          else if status_field updatedPrediction = ''succeeded''
                          then (Break,
                                onProcessComplete
                                  (outputUrl_of (output_field updatedPrediction))
                                  (setStatusMessage ''Processing complete!''
                                     (setStatus Complete st3)))
                          else (Continue, st3)))"

text \<open>
  The \<open>while\<close> loop of lines 77 to 103. The guard tests \<open>prediction\<close>, the body of the
  creation response, at every iteration. The list holds the answers delivered so far
  to the status requests, in order; when it is used up the loop is still waiting.
\<close>

fun poll_loop :: "body \<Rightarrow> fetched list \<Rightarrow> state \<Rightarrow> completion \<times> state" where
  "poll_loop prediction answers st =
     (if status_field prediction \<noteq> ''succeeded'' \<and> status_field prediction \<noteq> ''failed''
      then (case answers of
              [] \<Rightarrow> (Awaiting, st)
            | answer # rest \<Rightarrow>
                (case poll_body prediction answer st of
                   (Raise e, st') \<Rightarrow> (Threw e, st')
                 | (Break, st') \<Rightarrow> (Done, st')
                 | (Continue, st') \<Rightarrow> poll_loop prediction rest st'))
      else (Done, st))"

subsection \<open>handleProcess\<close>

text \<open>The \<open>try\<close> block, lines 49 to 103.\<close>

definition try_block ::
  "component \<Rightarrow> string \<Rightarrow> fetched \<Rightarrow> fetched list \<Rightarrow> state \<Rightarrow> completion \<times> state" where
  "try_block c url created answers st =
     (let st1 = setStatus Uploading st;
          st2 = setStatusMessage ''Starting image processing...'' st1;
          st3 = emit (FetchPost ''/api/replicate''
                        \<lparr>model = MODEL, image = url, scale_input = scale c,
                         face_enhance = enhanceFace c\<rparr>) st2
      in case created of
           Rejects e \<Rightarrow> (Threw e, st3)
         | Resolves response \<Rightarrow>
             if \<not> ok response
             then (case json response of
                     Rejects e \<Rightarrow> (Threw e, st3)
                   | Resolves error \<Rightarrow>
                       (Threw (ErrorObj (or_else (error_field error)
                                           ''Failed to process image'')), st3))
             else (case json response of
                     Rejects e \<Rightarrow> (Threw e, st3)
                   | Resolves prediction \<Rightarrow>
                       poll_loop prediction answers (setStatus Processing st3)))"

text \<open>The \<open>catch\<close> block, lines 104 to 109.\<close>

definition message_of :: "thrown \<Rightarrow> string" where
  "message_of error =
     (case error of ErrorObj message \<Rightarrow> message | NonError \<Rightarrow> ''Failed to process image'')"

definition catch_block :: "thrown \<Rightarrow> state \<Rightarrow> state" where
  "catch_block error st =
     emit (ToastError ''Processing failed. Please try again.'')
       (setStatusMessage (message_of error)
          (setStatus Error
             (emit (LoggerError ''Processing failed:'' error) st)))"

definition handleProcess ::
  "component \<Rightarrow> fetched \<Rightarrow> fetched list \<Rightarrow> state \<Rightarrow> completion \<times> state" where
  "handleProcess c created answers st =
     (case user c of
        None \<Rightarrow> (Done, emit (ToastError ''Please log in to continue'') st)
      | Some _ \<Rightarrow>
          (case selectedFile c of
             None \<Rightarrow> (Done, st)
           | Some _ \<Rightarrow>
               (case previewUrl c of
                  None \<Rightarrow> (Done, st)
                | Some url \<Rightarrow>
                    if url = [] then (Done, st)
                    else (case try_block c url created answers st of
                            (Threw error, st') \<Rightarrow> (Done, catch_block error st')
                          | (Done, st') \<Rightarrow> (Done, st')
                          | (Awaiting, st') \<Rightarrow> (Awaiting, st')))))"

declare poll_loop.simps [simp del]

text \<open>The state of a freshly mounted component: \<open>useState('idle')\<close>, \<open>useState('')\<close>.\<close>

definition initial :: state where
  "initial = \<lparr>status = Idle, statusMessage = [], effects = []\<rparr>"

section \<open>Observations on a log of effects\<close>

definition terminal :: "string \<Rightarrow> bool" where
  "terminal s = (s = ''succeeded'' \<or> s = ''failed'')"

fun is_fetch :: "effect \<Rightarrow> bool" where
  "is_fetch (FetchPost _ _) = True"
| "is_fetch (FetchGet _) = True"
| "is_fetch _ = False"

fun is_status_fetch :: "effect \<Rightarrow> bool" where
  "is_status_fetch (FetchGet _) = True"
| "is_status_fetch _ = False"

definition network_calls :: "effect list \<Rightarrow> effect list" where
  "network_calls es = filter is_fetch es"

definition status_fetches :: "effect list \<Rightarrow> effect list" where
  "status_fetches es = filter is_status_fetch es"

fun written :: "effect \<Rightarrow> ui_status list" where
  "written (SetStatus s) = [s]"
| "written _ = []"

definition status_writes :: "effect list \<Rightarrow> ui_status list" where
  "status_writes es = concat (map written es)"

fun event_of :: "effect \<Rightarrow> (string \<times> string option) list" where
  "event_of (DispatchEvent name outputUrl) = [(name, outputUrl)]"
| "event_of _ = []"

definition dispatched :: "effect list \<Rightarrow> (string \<times> string option) list" where
  "dispatched es = concat (map event_of es)"

fun toast_of :: "effect \<Rightarrow> string list" where
  "toast_of (ToastError m) = [m]"
| "toast_of _ = []"

definition toasts :: "effect list \<Rightarrow> string list" where
  "toasts es = concat (map toast_of es)"

text \<open>
  The time that certainly passes while a stretch of the log is performed: the sum of
  the delays awaited through \<open>sleep\<close> (a timer fires no earlier than its delay).
\<close>

fun delay_of :: "effect \<Rightarrow> nat" where
  "delay_of (Sleep ms) = ms"
| "delay_of _ = 0"

definition elapsed :: "effect list \<Rightarrow> nat" where
  "elapsed es = sum_list (map delay_of es)"

text \<open>
  An answer after which the loop goes round again: a success response whose body
  parses and whose status is neither \<open>succeeded\<close> nor \<open>failed\<close>.
\<close>

definition keeps_polling :: "fetched \<Rightarrow> bool" where
  "keeps_polling answer =
     (case answer of
        Rejects _ \<Rightarrow> False
      | Resolves r \<Rightarrow>
          ok r \<and> (case json r of Rejects _ \<Rightarrow> False | Resolves b \<Rightarrow> \<not> terminal (status_field b)))"

text \<open>
  An answer on which the loop body throws: the request is rejected, the response is
  not a success, its body does not parse, or its status is \<open>failed\<close>.
\<close>

definition fails :: "fetched \<Rightarrow> bool" where
  "fails answer =
     (case answer of
        Rejects _ \<Rightarrow> True
      | Resolves r \<Rightarrow>
          \<not> ok r \<or> (case json r of Rejects _ \<Rightarrow> True | Resolves b \<Rightarrow> status_field b = ''failed''))"

text \<open>The order idle, uploading, processing, then complete or error.\<close>

fun rank :: "ui_status \<Rightarrow> nat" where
  "rank Idle = 0"
| "rank Uploading = 1"
| "rank Processing = 2"
| "rank Complete = 3"
| "rank Error = 3"

definition forward :: "ui_status \<Rightarrow> ui_status \<Rightarrow> bool" where
  "forward a b = (rank a < rank b)"

text \<open>
  A history of status values, from a current value on, in which every move is forward
  or is a write of \<open>uploading\<close> (line 49, the first statement of a submission).
\<close>

fun only_forward :: "ui_status \<Rightarrow> ui_status list \<Rightarrow> bool" where
  "only_forward s [] = True"
| "only_forward s (w # ws) = ((forward s w \<or> w = Uploading) \<and> only_forward w ws)"

text \<open>The same with no exception: every move is forward.\<close>

fun strictly_forward :: "ui_status \<Rightarrow> ui_status list \<Rightarrow> bool" where
  "strictly_forward s [] = True"
| "strictly_forward s (w # ws) = (forward s w \<and> strictly_forward w ws)"

text \<open>
  What one submission may write: nothing, or \<open>uploading\<close> first and then only forward
  moves.
\<close>

fun one_submission :: "ui_status list \<Rightarrow> bool" where
  "one_submission [] = True"
| "one_submission (w # ws) = (w = Uploading \<and> strictly_forward Uploading ws)"

text \<open>
  A log read from its newest entry back: every status request has a \<open>sleep\<close> of at
  least a second as the entry just before it.
\<close>

fun timed :: "effect list \<Rightarrow> bool" where
  "timed [] = True"
| "timed (FetchGet u # es) = ((case es of Sleep ms # _ \<Rightarrow> 1000 \<le> ms | _ \<Rightarrow> False) \<and> timed es)"
| "timed (e # es) = timed es"

subsection \<open>Sequences of invocations\<close>

record invocation =
  closure :: component
  created_answer :: fetched
  status_answers :: "fetched list"

text \<open>
  Invocations one after the other, each on the status and message the previous one
  left. The button that calls \<open>handleProcess\<close> is disabled while \<open>status\<close> is
  uploading or processing, so the invocations of one component do not interleave.
  The log is emptied before each invocation, so that the result lists, invocation by
  invocation, the status values written by it.
\<close>

fun history :: "invocation list \<Rightarrow> state \<Rightarrow> ui_status list list" where
  "history [] st = []"
| "history (i # rest) st =
     (let st' = snd (handleProcess (closure i) (created_answer i) (status_answers i)
                       (st\<lparr>effects := []\<rparr>))
      in status_writes (effects st')
         # history rest st')"

subsection \<open>Example inputs\<close>

definition signed_in :: component where
  "signed_in = \<lparr>user = Some ''ada'', selectedFile = Some ''cat.png'',
                 previewUrl = Some ''data:image/png;base64,AAAA'', scale = 4,
                 enhanceFace = False\<rparr>"

definition answer_ok :: "string \<Rightarrow> prediction_output option \<Rightarrow> string option \<Rightarrow> fetched" where
  "answer_ok s out err =
     Resolves \<lparr>ok = True,
               json = Resolves \<lparr>id_field = ''p1'', status_field = s, output_field = out,
                                error_field = err\<rparr>\<rparr>"

definition answer_http_error :: "string option \<Rightarrow> fetched" where
  "answer_http_error err =
     Resolves \<lparr>ok = False,
               json = Resolves \<lparr>id_field = [], status_field = [], output_field = None,
                                error_field = err\<rparr>\<rparr>"

definition answer_unparsable :: fetched where
  "answer_unparsable =
     Resolves \<lparr>ok = False, json = Rejects (ErrorObj ''Unexpected token < in JSON at position 0'')\<rparr>"

definition answer_gone :: fetched where
  "answer_gone = Resolves \<lparr>ok = False, json = Rejects (ErrorObj ''Unexpected end of JSON input'')\<rparr>"

definition bad_gateway :: invocation where
  "bad_gateway = \<lparr>closure = signed_in, created_answer = answer_http_error (Some ''bad gateway''),
                   status_answers = []\<rparr>"

definition upscaled :: invocation where
  "upscaled = \<lparr>closure = signed_in, created_answer = answer_ok ''starting'' None None,
                status_answers = [answer_ok ''processing'' None None,
                   answer_ok ''succeeded'' (Some (Single ''https://x/out.png'')) None]\<rparr>"

section \<open>Lemmas on the loop\<close>

lemmas ops = emit_def setStatus_def setStatusMessage_def sleep_def onProcessComplete_def

lemmas obs = network_calls_def status_fetches_def status_writes_def dispatched_def toasts_def

lemma poll_loop_terminal:
  "terminal (status_field p) \<Longrightarrow> poll_loop p answers st = (Done, st)"
  by (subst poll_loop.simps) (auto simp: terminal_def)

lemma poll_loop_Nil:
  "\<not> terminal (status_field p) \<Longrightarrow> poll_loop p [] st = (Awaiting, st)"
  by (subst poll_loop.simps) (simp add: terminal_def)

lemma poll_loop_Cons:
  "\<not> terminal (status_field p) \<Longrightarrow>
   poll_loop p (a # rest) st =
     (case poll_body p a st of
        (Raise e, st') \<Rightarrow> (Threw e, st')
      | (Break, st') \<Rightarrow> (Done, st')
      | (Continue, st') \<Rightarrow> poll_loop p rest st')"
  by (subst poll_loop.simps) (simp add: terminal_def)

lemma poll_body_Continue_iff:
  "fst (poll_body p a st) = Continue \<longleftrightarrow> keeps_polling a"
  by (simp add: poll_body_def keeps_polling_def terminal_def Let_def
      split: awaited.splits)

lemma poll_body_status_fetches:
  "status_fetches (effects (snd (poll_body p a st))) =
   status_fetches (effects st) @ [FetchGet (''/api/predictions/'' @ id_field p)]"
  by (simp add: poll_body_def status_fetches_def ops Let_def split: awaited.splits)

lemma poll_loop_append_Awaiting:
  "fst (poll_loop p pre st) = Awaiting \<Longrightarrow>
   poll_loop p (pre @ rest) st = poll_loop p rest (snd (poll_loop p pre st))"
proof (induction pre arbitrary: st)
  case Nil
  then show ?case
    by (cases "terminal (status_field p)") (simp_all add: poll_loop_terminal poll_loop_Nil)
next
  case (Cons a pre)
  show ?case
  proof (cases "terminal (status_field p)")
    case True
    with Cons.prems show ?thesis by (simp add: poll_loop_terminal)
  next
    case False
    obtain s st' where b: "poll_body p a st = (s, st')" by (cases "poll_body p a st")
    with Cons.prems False have "s = Continue"
      by (cases s) (simp_all add: poll_loop_Cons)
    with b False Cons.prems Cons.IH [of st'] show ?thesis
      by (simp add: poll_loop_Cons)
  qed
qed

lemma poll_loop_append_finished:
  "fst (poll_loop p pre st) \<noteq> Awaiting \<Longrightarrow>
   poll_loop p (pre @ rest) st = poll_loop p pre st"
proof (induction pre arbitrary: st)
  case Nil
  then show ?case
    by (cases "terminal (status_field p)") (simp_all add: poll_loop_terminal poll_loop_Nil)
next
  case (Cons a pre)
  show ?case
  proof (cases "terminal (status_field p)")
    case True
    then show ?thesis by (simp add: poll_loop_terminal)
  next
    case False
    obtain s st' where b: "poll_body p a st = (s, st')" by (cases "poll_body p a st")
    with False Cons.prems Cons.IH [of st'] show ?thesis
      by (cases s) (simp_all add: poll_loop_Cons)
  qed
qed

lemma poll_loop_Awaiting_iff:
  "fst (poll_loop p answers st) = Awaiting \<longleftrightarrow>
   \<not> terminal (status_field p) \<and> list_all keeps_polling answers"
proof (induction answers arbitrary: st)
  case Nil
  then show ?case
    by (cases "terminal (status_field p)") (simp_all add: poll_loop_terminal poll_loop_Nil)
next
  case (Cons a answers)
  show ?case
  proof (cases "terminal (status_field p)")
    case True
    then show ?thesis by (simp add: poll_loop_terminal)
  next
    case False
    obtain s st' where b: "poll_body p a st = (s, st')" by (cases "poll_body p a st")
    then have "s = Continue \<longleftrightarrow> keeps_polling a"
      using poll_body_Continue_iff [of p a st] by simp
    with b False Cons.IH [of st'] show ?thesis
      by (cases s) (simp_all add: poll_loop_Cons)
  qed
qed

section \<open>Lemmas on handleProcess\<close>

lemma handleProcess_present:
  "user c = Some u \<Longrightarrow> selectedFile c = Some f \<Longrightarrow> previewUrl c = Some url \<Longrightarrow> url \<noteq> [] \<Longrightarrow>
   handleProcess c created answers st =
     (case try_block c url created answers st of
        (Threw error, st') \<Rightarrow> (Done, catch_block error st')
      | (Done, st') \<Rightarrow> (Done, st')
      | (Awaiting, st') \<Rightarrow> (Awaiting, st'))"
  by (simp add: handleProcess_def)

lemma try_block_polls:
  "created = Resolves resp \<Longrightarrow> ok resp \<Longrightarrow> json resp = Resolves p \<Longrightarrow>
   try_block c url created answers st =
     poll_loop p answers
       (setStatus Processing
          (emit (FetchPost ''/api/replicate''
                   \<lparr>model = MODEL, image = url, scale_input = scale c,
                    face_enhance = enhanceFace c\<rparr>)
             (setStatusMessage ''Starting image processing...'' (setStatus Uploading st))))"
  by (simp add: try_block_def Let_def)

section \<open>Evaluation on concrete inputs\<close>

lemmas run = handleProcess_def try_block_def poll_loop.simps poll_body_def catch_block_def
  message_of_def or_else_def outputUrl_of_def Let_def ops

lemmas examples = signed_in_def answer_ok_def answer_http_error_def answer_unparsable_def
  initial_def

section \<open>The claims\<close>

text \<open>
  C2. With no authenticated user, an invocation performs no network call, whatever the
  network would have answered, and it returns at once; a component whose status is
  idle is left at idle, with its message unchanged.
\<close>

theorem no_user_no_network:
  assumes "user c = None" and "status st = Idle"
    and "handleProcess c created answers st = (r, st')"
  shows "r = Done \<and> network_calls (effects st') = network_calls (effects st) \<and>
         status st' = Idle \<and> statusMessage st' = statusMessage st"
  using assms by (auto simp: handleProcess_def ops obs)

theorem no_user_no_network_witness:
  "fst (handleProcess (signed_in\<lparr>user := None\<rparr>) (answer_ok ''starting'' None None) [] initial) = Done \<and>
   network_calls (effects (snd (handleProcess (signed_in\<lparr>user := None\<rparr>)
                                  (answer_ok ''starting'' None None) [] initial))) = [] \<and>
   status (snd (handleProcess (signed_in\<lparr>user := None\<rparr>)
                  (answer_ok ''starting'' None None) [] initial)) = Idle"
  using no_user_no_network [of "signed_in\<lparr>user := None\<rparr>" initial
      "answer_ok ''starting'' None None" "[]"
      "fst (handleProcess (signed_in\<lparr>user := None\<rparr>) (answer_ok ''starting'' None None) [] initial)"
      "snd (handleProcess (signed_in\<lparr>user := None\<rparr>) (answer_ok ''starting'' None None) [] initial)"]
  by (simp add: signed_in_def initial_def network_calls_def)

text \<open>
  C1. In a run with a user and a file, where the creation request succeeds and the
  three status requests of the run are answered with the statuses \<open>starting\<close>,
  \<open>processing\<close> and \<open>succeeded\<close>, the last one with an output, the status is
  written uploading, processing, complete in this order, and one \<open>processComplete\<close>
  event is dispatched. Its \<open>outputUrl\<close> is the output when that is a single URL and
  its first element when it is a sequence of URLs.
\<close>

theorem success_run_completes:
  assumes "user c = Some u" and "selectedFile c = Some f" and "previewUrl c = Some url"
    and "url \<noteq> []"
    and "created = Resolves \<lparr>ok = True, json = Resolves prediction\<rparr>"
    and "answers = [Resolves \<lparr>ok = True, json = Resolves b1\<rparr>,
                    Resolves \<lparr>ok = True, json = Resolves b2\<rparr>,
                    Resolves \<lparr>ok = True, json = Resolves b3\<rparr>]"
    and "status_field b1 = ''starting''" and "status_field b2 = ''processing''"
    and "status_field b3 = ''succeeded''"
    and "output_field b3 = Some (Single x) \<or> output_field b3 = Some (Many (x # xs))"
    and "handleProcess c created answers st = (r, st')"
    and "length (status_fetches (effects st')) = length (status_fetches (effects st)) + 3"
  shows "r = Done \<and>
         status_writes (effects st') = status_writes (effects st) @ [Uploading, Processing, Complete] \<and>
         status st' = Complete \<and>
         dispatched (effects st') = dispatched (effects st) @ [(''processComplete'', Some x)]"
proof (cases "terminal (status_field prediction)")
  case True
  with assms show ?thesis
    by (auto simp: handleProcess_present try_block_polls poll_loop_terminal ops obs)
next
  case False
  with assms show ?thesis
    by (auto simp: handleProcess_present try_block_polls poll_loop_Cons poll_loop_Nil
        poll_body_def outputUrl_of_def Let_def ops obs)
qed

theorem success_run_completes_witness:
  "status_writes (effects (snd (handleProcess signed_in (answer_ok ''starting'' None None)
      [answer_ok ''starting'' None None, answer_ok ''processing'' None None,
       answer_ok ''succeeded'' (Some (Single ''https://x/out.png'')) None] initial)))
     = [Uploading, Processing, Complete] \<and>
   dispatched (effects (snd (handleProcess signed_in (answer_ok ''starting'' None None)
      [answer_ok ''starting'' None None, answer_ok ''processing'' None None,
       answer_ok ''succeeded'' (Some (Single ''https://x/out.png'')) None] initial)))
     = [(''processComplete'', Some ''https://x/out.png'')] \<and>
   dispatched (effects (snd (handleProcess signed_in (answer_ok ''starting'' None None)
      [answer_ok ''starting'' None None, answer_ok ''processing'' None None,
       answer_ok ''succeeded'' (Some (Many [''https://x/a.png'', ''https://x/b.png''])) None] initial)))
     = [(''processComplete'', Some ''https://x/a.png'')]"
  using
    success_run_completes [of signed_in "''ada''" "''cat.png''" "''data:image/png;base64,AAAA''"
      "answer_ok ''starting'' None None"
      "\<lparr>id_field = ''p1'', status_field = ''starting'', output_field = None, error_field = None\<rparr>"
      "[answer_ok ''starting'' None None, answer_ok ''processing'' None None,
        answer_ok ''succeeded'' (Some (Single ''https://x/out.png'')) None]"
      "\<lparr>id_field = ''p1'', status_field = ''starting'', output_field = None, error_field = None\<rparr>"
      "\<lparr>id_field = ''p1'', status_field = ''processing'', output_field = None, error_field = None\<rparr>"
      "\<lparr>id_field = ''p1'', status_field = ''succeeded'',
         output_field = Some (Single ''https://x/out.png''), error_field = None\<rparr>"
      "''https://x/out.png''" "[]" initial
      "fst (handleProcess signed_in (answer_ok ''starting'' None None)
        [answer_ok ''starting'' None None, answer_ok ''processing'' None None,
         answer_ok ''succeeded'' (Some (Single ''https://x/out.png'')) None] initial)"
      "snd (handleProcess signed_in (answer_ok ''starting'' None None)
        [answer_ok ''starting'' None None, answer_ok ''processing'' None None,
         answer_ok ''succeeded'' (Some (Single ''https://x/out.png'')) None] initial)"]
    success_run_completes [of signed_in "''ada''" "''cat.png''" "''data:image/png;base64,AAAA''"
      "answer_ok ''starting'' None None"
      "\<lparr>id_field = ''p1'', status_field = ''starting'', output_field = None, error_field = None\<rparr>"
      "[answer_ok ''starting'' None None, answer_ok ''processing'' None None,
        answer_ok ''succeeded'' (Some (Many [''https://x/a.png'', ''https://x/b.png''])) None]"
      "\<lparr>id_field = ''p1'', status_field = ''starting'', output_field = None, error_field = None\<rparr>"
      "\<lparr>id_field = ''p1'', status_field = ''processing'', output_field = None, error_field = None\<rparr>"
      "\<lparr>id_field = ''p1'', status_field = ''succeeded'',
         output_field = Some (Many [''https://x/a.png'', ''https://x/b.png'']), error_field = None\<rparr>"
      "''https://x/a.png''" "[''https://x/b.png'']" initial
      "fst (handleProcess signed_in (answer_ok ''starting'' None None)
        [answer_ok ''starting'' None None, answer_ok ''processing'' None None,
         answer_ok ''succeeded'' (Some (Many [''https://x/a.png'', ''https://x/b.png''])) None] initial)"
      "snd (handleProcess signed_in (answer_ok ''starting'' None None)
        [answer_ok ''starting'' None None, answer_ok ''processing'' None None,
         answer_ok ''succeeded'' (Some (Many [''https://x/a.png'', ''https://x/b.png''])) None] initial)"]
  by (simp add: examples obs run)

text \<open>
  C4 as stated fails: with a user but no selected file the invocation returns without
  any effect at all, so no error is surfaced.
\<close>

theorem missing_file_surfaces_nothing:
  "effects (snd (handleProcess (signed_in\<lparr>selectedFile := None\<rparr>)
                   (answer_ok ''starting'' None None) [] initial)) = [] \<and>
   status (snd (handleProcess (signed_in\<lparr>selectedFile := None\<rparr>)
                  (answer_ok ''starting'' None None) [] initial)) = Idle \<and>
   statusMessage (snd (handleProcess (signed_in\<lparr>selectedFile := None\<rparr>)
                  (answer_ok ''starting'' None None) [] initial)) = []"
  by (simp add: handleProcess_def signed_in_def initial_def)

text \<open>
  C4, amended. When the selected file or the preview URL is absent (or the preview URL
  is the empty string), the invocation returns at once with no network call and with
  status and message unchanged; it surfaces nothing for the missing file. The only
  notification is the log-in toast, and only when the user is absent as well.
\<close>

theorem missing_file_returns_silently:
  assumes "selectedFile c = None \<or> previewUrl c = None \<or> previewUrl c = Some []"
    and "handleProcess c created answers st = (r, st')"
  shows "r = Done \<and> network_calls (effects st') = network_calls (effects st) \<and>
         status st' = status st \<and> statusMessage st' = statusMessage st \<and>
         toasts (effects st') =
           toasts (effects st) @ (if user c = None then [''Please log in to continue''] else []) \<and>
         (user c \<noteq> None \<longrightarrow> st' = st)"
  using assms by (auto simp: handleProcess_def ops obs split: option.splits)

theorem missing_file_returns_silently_witness:
  "handleProcess (signed_in\<lparr>previewUrl := None\<rparr>) (answer_ok ''starting'' None None) [] initial
   = (Done, initial)"
  using missing_file_returns_silently [of "signed_in\<lparr>previewUrl := None\<rparr>" "answer_ok ''starting'' None None" "[]" initial
      "fst (handleProcess (signed_in\<lparr>previewUrl := None\<rparr>) (answer_ok ''starting'' None None) [] initial)"
      "snd (handleProcess (signed_in\<lparr>previewUrl := None\<rparr>) (answer_ok ''starting'' None None) [] initial)"]
  by (simp add: signed_in_def prod_eq_iff)

text \<open>
  C10. The guard of the loop tests the status of the creation response, which the loop
  never replaces. When that status is already \<open>succeeded\<close> or \<open>failed\<close>, whatever
  the status endpoint would answer, the invocation performs exactly the four effects
  before the loop: no status request, no \<open>processComplete\<close> event, no error. The
  status stays at processing and the message at \<open>Starting image processing...\<close>.
\<close>

theorem terminal_creation_skips_loop:
  assumes "user c = Some u" and "selectedFile c = Some f" and "previewUrl c = Some url"
    and "url \<noteq> []"
    and "created = Resolves resp" and "ok resp" and "json resp = Resolves prediction"
    and "terminal (status_field prediction)"
    and "handleProcess c created answers st = (r, st')"
  shows "r = Done \<and>
         effects st' = effects st @
           [SetStatus Uploading, SetStatusMessage ''Starting image processing...'',
            FetchPost ''/api/replicate''
              \<lparr>model = MODEL, image = url, scale_input = scale c, face_enhance = enhanceFace c\<rparr>,
            SetStatus Processing] \<and>
         status st' = Processing \<and> statusMessage st' = ''Starting image processing...''"
  using assms
  by (auto simp: handleProcess_present try_block_polls poll_loop_terminal ops)

theorem terminal_creation_skips_loop_witness:
  "fst (handleProcess signed_in (answer_ok ''failed'' None (Some ''oom''))
          [answer_ok ''processing'' None None] initial) = Done \<and>
   effects (snd (handleProcess signed_in (answer_ok ''failed'' None (Some ''oom''))
          [answer_ok ''processing'' None None] initial)) =
     [SetStatus Uploading, SetStatusMessage ''Starting image processing...'',
      FetchPost ''/api/replicate''
        \<lparr>model = MODEL, image = ''data:image/png;base64,AAAA'', scale_input = 4,
         face_enhance = False\<rparr>,
      SetStatus Processing] \<and>
   status (snd (handleProcess signed_in (answer_ok ''failed'' None (Some ''oom''))
          [answer_ok ''processing'' None None] initial)) = Processing"
  using terminal_creation_skips_loop [of signed_in "''ada''" "''cat.png''" "''data:image/png;base64,AAAA''"
      "answer_ok ''failed'' None (Some ''oom'')"
      "\<lparr>ok = True, json = Resolves \<lparr>id_field = ''p1'', status_field = ''failed'',
          output_field = None, error_field = Some ''oom''\<rparr>\<rparr>"
      "\<lparr>id_field = ''p1'', status_field = ''failed'', output_field = None, error_field = Some ''oom''\<rparr>"
      "[answer_ok ''processing'' None None]" initial
      "fst (handleProcess signed_in (answer_ok ''failed'' None (Some ''oom'')) [answer_ok ''processing'' None None] initial)"
      "snd (handleProcess signed_in (answer_ok ''failed'' None (Some ''oom'')) [answer_ok ''processing'' None None] initial)"]
  by (simp add: examples terminal_def)

section \<open>Counting the status requests\<close>

lemma poll_loop_fetch_le:
  "length (status_fetches (effects (snd (poll_loop p answers st))))
   \<le> length (status_fetches (effects st)) + length answers"
proof (induction answers arbitrary: st)
  case Nil
  then show ?case
    by (cases "terminal (status_field p)") (simp_all add: poll_loop_terminal poll_loop_Nil)
next
  case (Cons a answers)
  show ?case
  proof (cases "terminal (status_field p)")
    case True
    then show ?thesis by (simp add: poll_loop_terminal)
  next
    case False
    obtain s st' where b: "poll_body p a st = (s, st')" by (cases "poll_body p a st")
    then have n: "length (status_fetches (effects st')) = length (status_fetches (effects st)) + 1"
      using poll_body_status_fetches [of p a st] by simp
    show ?thesis
    proof (cases s)
      case Continue
      with b False n Cons.IH [of st'] show ?thesis by (simp add: poll_loop_Cons)
    next
      case Break
      with b False n show ?thesis by (simp add: poll_loop_Cons)
    next
      case (Raise e)
      with b False n show ?thesis by (simp add: poll_loop_Cons)
    qed
  qed
qed

lemma poll_loop_fetch_count:
  "fst (poll_loop p answers st) = Awaiting \<Longrightarrow>
   length (status_fetches (effects (snd (poll_loop p answers st))))
   = length (status_fetches (effects st)) + length answers"
proof (induction answers arbitrary: st)
  case Nil
  then show ?case
    by (cases "terminal (status_field p)") (simp_all add: poll_loop_terminal poll_loop_Nil)
next
  case (Cons a answers)
  show ?case
  proof (cases "terminal (status_field p)")
    case True
    with Cons.prems show ?thesis by (simp add: poll_loop_terminal)
  next
    case False
    obtain s st' where b: "poll_body p a st = (s, st')" by (cases "poll_body p a st")
    then have n: "length (status_fetches (effects st')) = length (status_fetches (effects st)) + 1"
      using poll_body_status_fetches [of p a st] by simp
    from b False Cons.prems have "s = Continue"
      by (cases s) (simp_all add: poll_loop_Cons)
    with b False n Cons.prems Cons.IH [of st'] show ?thesis
      by (simp add: poll_loop_Cons)
  qed
qed

lemma poll_loop_stops:
  assumes "\<not> keeps_polling a"
  shows "length (status_fetches (effects (snd (poll_loop p (pre @ a # post) st))))
         \<le> length (status_fetches (effects st)) + length pre + 1"
proof -
  from assms have "fst (poll_loop p (pre @ [a]) st) \<noteq> Awaiting"
    by (simp add: poll_loop_Awaiting_iff)
  then have "poll_loop p ((pre @ [a]) @ post) st = poll_loop p (pre @ [a]) st"
    by (rule poll_loop_append_finished)
  then show ?thesis
    using poll_loop_fetch_le [of p "pre @ [a]" st] by simp
qed

lemma catch_block_status_fetches:
  "status_fetches (effects (catch_block e st)) = status_fetches (effects st)"
  by (simp add: catch_block_def ops obs)

text \<open>The invocation either never reaches the loop, or its status requests are the loop's.\<close>

lemma handleProcess_status_fetches:
  "status_fetches (effects (snd (handleProcess c created answers st))) = status_fetches (effects st)
   \<or> (\<exists>resp p st0. created = Resolves resp \<and> ok resp \<and> json resp = Resolves p \<and>
        status_fetches (effects st0) = status_fetches (effects st) \<and>
        status_fetches (effects (snd (handleProcess c created answers st)))
        = status_fetches (effects (snd (poll_loop p answers st0))))"
proof (cases "\<exists>u f url. user c = Some u \<and> selectedFile c = Some f \<and> previewUrl c = Some url \<and> url \<noteq> []")
  case False
  then have "status_fetches (effects (snd (handleProcess c created answers st))) = status_fetches (effects st)"
    by (auto simp: handleProcess_def ops obs split: option.splits)
  then show ?thesis ..
next
  case True
  then obtain u f url where pres: "user c = Some u" "selectedFile c = Some f"
    "previewUrl c = Some url" "url \<noteq> []" by blast
  show ?thesis
  proof (cases "\<exists>resp p. created = Resolves resp \<and> ok resp \<and> json resp = Resolves p")
    case False
    then have "status_fetches (effects (snd (handleProcess c created answers st))) = status_fetches (effects st)"
      using pres
      by (auto simp: handleProcess_present try_block_def catch_block_def Let_def ops obs
          split: awaited.splits)
    then show ?thesis ..
  next
    case True
    then obtain resp p where cr: "created = Resolves resp" "ok resp" "json resp = Resolves p"
      by blast
    define st0 where "st0 = setStatus Processing
          (emit (FetchPost ''/api/replicate''
                   \<lparr>model = MODEL, image = url, scale_input = scale c,
                    face_enhance = enhanceFace c\<rparr>)
             (setStatusMessage ''Starting image processing...'' (setStatus Uploading st)))"
    have a: "status_fetches (effects st0) = status_fetches (effects st)"
      by (simp add: st0_def ops obs)
    have t: "try_block c url created answers st = poll_loop p answers st0"
      unfolding st0_def using cr by (rule try_block_polls)
    obtain r st' where l: "poll_loop p answers st0 = (r, st')" by (cases "poll_loop p answers st0")
    have "status_fetches (effects (snd (handleProcess c created answers st)))
        = status_fetches (effects (snd (poll_loop p answers st0)))"
      using pres t l by (cases r) (simp_all add: handleProcess_present catch_block_status_fetches)
    with a cr show ?thesis by blast
  qed
qed

text \<open>
  C9. The loop has no ceiling and no cancellation. When the creation response is not
  terminal and every answer of an endless sequence of status answers is a success
  whose status is neither \<open>succeeded\<close> nor \<open>failed\<close>, then however many answers
  \<open>n\<close> have been delivered the invocation has not returned (it is waiting for the
  next answer) and it has issued \<open>n\<close> status requests.
\<close>

theorem stuck_job_polls_forever:
  assumes "user c = Some u" and "selectedFile c = Some f" and "previewUrl c = Some url"
    and "url \<noteq> []"
    and "created = Resolves resp" and "ok resp" and "json resp = Resolves prediction"
    and "\<not> terminal (status_field prediction)"
    and "\<forall>i. keeps_polling (answer i)"
    and "handleProcess c created (map answer [0..<n]) st = (r, st')"
  shows "r = Awaiting \<and>
         length (status_fetches (effects st')) = length (status_fetches (effects st)) + n"
proof -
  define st0 where "st0 = setStatus Processing
          (emit (FetchPost ''/api/replicate''
                   \<lparr>model = MODEL, image = url, scale_input = scale c,
                    face_enhance = enhanceFace c\<rparr>)
             (setStatusMessage ''Starting image processing...'' (setStatus Uploading st)))"
  have a: "status_fetches (effects st0) = status_fetches (effects st)"
    by (simp add: st0_def ops obs)
  have t: "try_block c url created (map answer [0..<n]) st = poll_loop prediction (map answer [0..<n]) st0"
    unfolding st0_def using assms(5-7) by (rule try_block_polls)
  have w: "fst (poll_loop prediction (map answer [0..<n]) st0) = Awaiting"
    using assms(8,9) by (simp add: poll_loop_Awaiting_iff list_all_iff)
  then obtain st1 where l: "poll_loop prediction (map answer [0..<n]) st0 = (Awaiting, st1)"
    by (cases "poll_loop prediction (map answer [0..<n]) st0") simp
  from assms(1-4,10) t l have "r = Awaiting" "st' = st1"
    by (simp_all add: handleProcess_present)
  moreover have "length (status_fetches (effects st1)) = length (status_fetches (effects st0)) + n"
    using poll_loop_fetch_count [OF w] l by simp
  ultimately show ?thesis using a by simp
qed

theorem stuck_job_polls_forever_witness:
  "fst (handleProcess signed_in (answer_ok ''starting'' None None)
          (map (\<lambda>i. answer_ok ''processing'' None None) [0..<4]) initial) = Awaiting \<and>
   length (status_fetches (effects (snd (handleProcess signed_in (answer_ok ''starting'' None None)
          (map (\<lambda>i. answer_ok ''processing'' None None) [0..<4]) initial)))) = 4"
  using stuck_job_polls_forever [of signed_in "''ada''" "''cat.png''" "''data:image/png;base64,AAAA''"
      "answer_ok ''starting'' None None"
      "\<lparr>ok = True, json = Resolves \<lparr>id_field = ''p1'', status_field = ''starting'',
          output_field = None, error_field = None\<rparr>\<rparr>"
      "\<lparr>id_field = ''p1'', status_field = ''starting'', output_field = None, error_field = None\<rparr>"
      "\<lambda>i. answer_ok ''processing'' None None" 4 initial
      "fst (handleProcess signed_in (answer_ok ''starting'' None None)
          (map (\<lambda>i. answer_ok ''processing'' None None) [0..<4]) initial)"
      "snd (handleProcess signed_in (answer_ok ''starting'' None None)
          (map (\<lambda>i. answer_ok ''processing'' None None) [0..<4]) initial)"]
  by (simp add: examples terminal_def keeps_polling_def status_fetches_def)

section \<open>The delay before each status request\<close>

lemma timed_emit:
  "\<not> is_status_fetch e \<Longrightarrow> timed (rev (effects (emit e st))) = timed (rev (effects st))"
  by (cases e) (simp_all add: emit_def)

lemma timed_setStatus:
  "timed (rev (effects (setStatus s st))) = timed (rev (effects st))"
  by (simp add: setStatus_def emit_def)

lemma timed_setStatusMessage:
  "timed (rev (effects (setStatusMessage m st))) = timed (rev (effects st))"
  by (simp add: setStatusMessage_def emit_def)

lemma timed_catch_block:
  "timed (rev (effects (catch_block e st))) = timed (rev (effects st))"
  by (simp add: catch_block_def timed_emit timed_setStatus timed_setStatusMessage)

lemma timed_poll_body:
  "timed (rev (effects st)) \<Longrightarrow> timed (rev (effects (snd (poll_body p a st))))"
  by (simp add: poll_body_def Let_def ops split: awaited.splits)

lemma timed_poll_loop:
  "timed (rev (effects st)) \<Longrightarrow> timed (rev (effects (snd (poll_loop p answers st))))"
proof (induction answers arbitrary: st)
  case Nil
  then show ?case
    by (cases "terminal (status_field p)") (simp_all add: poll_loop_terminal poll_loop_Nil)
next
  case (Cons a answers)
  show ?case
  proof (cases "terminal (status_field p)")
    case True
    with Cons.prems show ?thesis by (simp add: poll_loop_terminal)
  next
    case False
    obtain s st' where b: "poll_body p a st = (s, st')" by (cases "poll_body p a st")
    with Cons.prems have "timed (rev (effects st'))"
      using timed_poll_body [of st p a] by simp
    with b False Cons.IH [of st'] show ?thesis
      by (cases s) (simp_all add: poll_loop_Cons)
  qed
qed

lemma timed_try_block:
  assumes "timed (rev (effects st))"
  shows "timed (rev (effects (snd (try_block c url created answers st))))"
proof -
  define st3 where "st3 = emit (FetchPost ''/api/replicate''
                   \<lparr>model = MODEL, image = url, scale_input = scale c,
                    face_enhance = enhanceFace c\<rparr>)
             (setStatusMessage ''Starting image processing...'' (setStatus Uploading st))"
  have t3: "timed (rev (effects st3))"
    using assms by (simp add: st3_def timed_emit timed_setStatus timed_setStatusMessage)
  then have "timed (rev (effects (setStatus Processing st3)))"
    by (simp add: timed_setStatus)
  then have "timed (rev (effects (snd (poll_loop p answers (setStatus Processing st3)))))" for p
    by (rule timed_poll_loop)
  with t3 show ?thesis
    by (simp add: try_block_def Let_def st3_def [symmetric] split: awaited.splits)
qed

lemma timed_handleProcess:
  assumes "timed (rev (effects st))"
  shows "timed (rev (effects (snd (handleProcess c created answers st))))"
proof (cases "\<exists>u f url. user c = Some u \<and> selectedFile c = Some f \<and> previewUrl c = Some url \<and> url \<noteq> []")
  case False
  with assms show ?thesis
    by (auto simp: handleProcess_def timed_emit split: option.splits)
next
  case True
  then obtain u f url where pres: "user c = Some u" "selectedFile c = Some f"
    "previewUrl c = Some url" "url \<noteq> []" by blast
  obtain r st' where t: "try_block c url created answers st = (r, st')"
    by (cases "try_block c url created answers st")
  then have "timed (rev (effects st'))"
    using timed_try_block [OF assms, of c url created answers] by simp
  with pres t show ?thesis
    by (cases r) (simp_all add: handleProcess_present timed_catch_block)
qed

lemma timed_suffix: "timed (xs @ ys) \<Longrightarrow> timed ys"
proof (induction xs)
  case Nil
  then show ?case by simp
next
  case (Cons x xs)
  then show ?case by (cases x) simp_all
qed

lemma timed_before_fetch:
  assumes "timed (rev (xs @ FetchGet u # ys))"
  shows "\<exists>zs ms. xs = zs @ [Sleep ms] \<and> 1000 \<le> ms"
proof -
  from assms have "timed (rev ys @ FetchGet u # rev xs)" by simp
  then have "timed (FetchGet u # rev xs)" by (rule timed_suffix)
  then obtain ms ws where "rev xs = Sleep ms # ws" "1000 \<le> ms"
    by (auto split: list.splits effect.splits)
  then have "xs = rev ws @ [Sleep ms]" by (metis rev_rev_ident rev.simps(2))
  with \<open>1000 \<le> ms\<close> show ?thesis by blast
qed

lemma timed_between:
  assumes "timed (rev (pre @ FetchGet u # mid @ FetchGet v # post))"
  shows "1000 \<le> elapsed mid"
proof -
  from assms have "timed (rev ((pre @ FetchGet u # mid) @ FetchGet v # post))" by simp
  then obtain zs ms where z: "pre @ FetchGet u # mid = zs @ [Sleep ms]" "1000 \<le> ms"
    using timed_before_fetch by blast
  have "mid \<noteq> []"
  proof
    assume "mid = []"
    with z(1) have "last (pre @ [FetchGet u]) = last (zs @ [Sleep ms])" by simp
    then show False by simp
  qed
  then obtain mid' e where m: "mid = mid' @ [e]" by (metis rev_exhaust)
  with z(1) have "last ((pre @ FetchGet u # mid') @ [e]) = last (zs @ [Sleep ms])" by simp
  then have "e = Sleep ms" by simp
  with m z(2) show ?thesis by (simp add: elapsed_def)
qed

text \<open>
  C8. In the log of an invocation, the effects between any two status requests include
  a sleep of at least 1000 ms. No status request follows a terminal status: when the
  answer at position \<open>length pre\<close> is a success with status \<open>succeeded\<close> or
  \<open>failed\<close>, at most \<open>length pre + 1\<close> status requests are issued, and when the
  creation response is terminal none is.
\<close>

theorem polls_spaced_and_stopped:
  assumes "effects st = []"
    and "handleProcess c created answers st = (r, st')"
  shows "(\<forall>pre u mid v post.
            effects st' = pre @ FetchGet u # mid @ FetchGet v # post \<longrightarrow> 1000 \<le> elapsed mid) \<and>
         (\<forall>pre a post b.
            answers = pre @ Resolves a # post \<and> ok a \<and> json a = Resolves b \<and>
            terminal (status_field b) \<longrightarrow>
            length (status_fetches (effects st')) \<le> length pre + 1) \<and>
         (\<forall>resp p. created = Resolves resp \<and> ok resp \<and> json resp = Resolves p \<and>
            terminal (status_field p) \<longrightarrow> status_fetches (effects st') = [])"
proof (intro conjI allI impI)
  fix pre u mid v post
  assume e: "effects st' = pre @ FetchGet u # mid @ FetchGet v # post"
  have "timed (rev (effects (snd (handleProcess c created answers st))))"
    using assms(1) by (intro timed_handleProcess) simp
  with assms(2) e show "1000 \<le> elapsed mid"
    using timed_between [of pre u mid v post] by simp
next
  fix pre a post b
  assume a: "answers = pre @ Resolves a # post \<and> ok a \<and> json a = Resolves b \<and>
            terminal (status_field b)"
  then have nk: "\<not> keeps_polling (Resolves a)" by (simp add: keeps_polling_def)
  have z: "status_fetches (effects st) = []" using assms(1) by (simp add: status_fetches_def)
  from handleProcess_status_fetches [of c created answers st]
  show "length (status_fetches (effects st')) \<le> length pre + 1"
  proof
    assume "status_fetches (effects (snd (handleProcess c created answers st))) = status_fetches (effects st)"
    with assms(2) z show ?thesis by simp
  next
    assume "\<exists>resp p st0. created = Resolves resp \<and> ok resp \<and> json resp = Resolves p \<and>
        status_fetches (effects st0) = status_fetches (effects st) \<and>
        status_fetches (effects (snd (handleProcess c created answers st)))
        = status_fetches (effects (snd (poll_loop p answers st0)))"
    then obtain p st0 where
      s0: "status_fetches (effects st0) = status_fetches (effects st)" and
      eq: "status_fetches (effects (snd (handleProcess c created answers st)))
        = status_fetches (effects (snd (poll_loop p answers st0)))" by blast
    from a nk have "length (status_fetches (effects (snd (poll_loop p answers st0))))
         \<le> length (status_fetches (effects st0)) + length pre + 1"
      using poll_loop_stops [of "Resolves a" p pre post st0] by simp
    with eq s0 z assms(2) show ?thesis by simp
  qed
next
  fix resp p
  assume t: "created = Resolves resp \<and> ok resp \<and> json resp = Resolves p \<and> terminal (status_field p)"
  have z: "status_fetches (effects st) = []" using assms(1) by (simp add: status_fetches_def)
  from handleProcess_status_fetches [of c created answers st]
  have "status_fetches (effects (snd (handleProcess c created answers st))) = []"
    using t z by (auto simp: poll_loop_terminal)
  with assms(2) show "status_fetches (effects st') = []" by simp
qed


theorem polls_spaced_and_stopped_witness:
  "1000 \<le> elapsed [SetStatusMessage ''Processing: starting'', Sleep 1000] \<and>
   length (status_fetches (effects (snd (handleProcess signed_in (answer_ok ''starting'' None None)
      [answer_ok ''starting'' None None,
       answer_ok ''succeeded'' (Some (Single ''https://x/out.png'')) None,
       answer_ok ''processing'' None None] initial)))) \<le> 2"
proof -
  let ?answers = "[answer_ok ''starting'' None None,
       answer_ok ''succeeded'' (Some (Single ''https://x/out.png'')) None,
       answer_ok ''processing'' None None]"
  let ?run = "handleProcess signed_in (answer_ok ''starting'' None None) ?answers initial"
  have e: "effects initial = []" by (simp add: initial_def)
  have r: "?run = (fst ?run, snd ?run)" by simp
  note w = polls_spaced_and_stopped [OF e r]
  have log: "effects (snd ?run) =
     [SetStatus Uploading, SetStatusMessage ''Starting image processing...'',
      FetchPost ''/api/replicate''
        \<lparr>model = MODEL, image = ''data:image/png;base64,AAAA'', scale_input = 4,
         face_enhance = False\<rparr>,
      SetStatus Processing, Sleep 1000] @
     FetchGet ''/api/predictions/p1'' #
     [SetStatusMessage ''Processing: starting'', Sleep 1000] @
     FetchGet ''/api/predictions/p1'' #
     [SetStatusMessage ''Processing: succeeded'', SetStatus Complete,
      SetStatusMessage ''Processing complete!'',
      DispatchEvent ''processComplete'' (Some ''https://x/out.png'')]"
    by (simp add: examples run)
  from w have "\<forall>pre u mid v post.
      effects (snd ?run) = pre @ FetchGet u # mid @ FetchGet v # post \<longrightarrow> 1000 \<le> elapsed mid"
    by (rule conjunct1)
  with log have a: "1000 \<le> elapsed [SetStatusMessage ''Processing: starting'', Sleep 1000]"
    by blast
  from w have "\<forall>pre a post b.
      ?answers = pre @ Resolves a # post \<and> ok a \<and> json a = Resolves b \<and>
      terminal (status_field b) \<longrightarrow> length (status_fetches (effects (snd ?run))) \<le> length pre + 1"
    by blast
  then have "?answers = [answer_ok ''starting'' None None] @
        Resolves \<lparr>ok = True, json = Resolves \<lparr>id_field = ''p1'', status_field = ''succeeded'',
             output_field = Some (Single ''https://x/out.png''), error_field = None\<rparr>\<rparr>
          # [answer_ok ''processing'' None None] \<and>
      ok \<lparr>ok = True, json = Resolves \<lparr>id_field = ''p1'', status_field = ''succeeded'',
             output_field = Some (Single ''https://x/out.png''), error_field = None\<rparr>\<rparr> \<and>
      json \<lparr>ok = True, json = Resolves \<lparr>id_field = ''p1'', status_field = ''succeeded'',
             output_field = Some (Single ''https://x/out.png''), error_field = None\<rparr>\<rparr>
        = Resolves \<lparr>id_field = ''p1'', status_field = ''succeeded'',
             output_field = Some (Single ''https://x/out.png''), error_field = None\<rparr> \<and>
      terminal (status_field \<lparr>id_field = ''p1'', status_field = ''succeeded'',
             output_field = Some (Single ''https://x/out.png''), error_field = None\<rparr>)
      \<longrightarrow> length (status_fetches (effects (snd ?run))) \<le> length [answer_ok ''starting'' None None] + 1"
    by blast
  then have b: "length (status_fetches (effects (snd ?run))) \<le> 2"
    by (simp add: answer_ok_def terminal_def)
  from a b show ?thesis by simp
qed

section \<open>The moves of the status\<close>

lemma poll_body_writes:
  assumes "poll_body p a st = (s, st')"
  shows "(s \<noteq> Break \<and> status_writes (effects st') = status_writes (effects st) \<and> status st' = status st)
       \<or> (s = Break \<and> status_writes (effects st') = status_writes (effects st) @ [Complete] \<and>
          status st' = Complete)"
  using assms
  by (auto simp: poll_body_def Let_def ops obs split: awaited.splits if_splits)

lemma poll_loop_writes:
  assumes "poll_loop p answers st = (r, st')"
  shows "(status_writes (effects st') = status_writes (effects st) \<and> status st' = status st)
       \<or> (r = Done \<and> status_writes (effects st') = status_writes (effects st) @ [Complete] \<and>
          status st' = Complete)"
  using assms
proof (induction answers arbitrary: st)
  case Nil
  then show ?case
    by (cases "terminal (status_field p)") (auto simp: poll_loop_terminal poll_loop_Nil)
next
  case (Cons a answers)
  show ?case
  proof (cases "terminal (status_field p)")
    case True
    with Cons.prems show ?thesis by (auto simp: poll_loop_terminal)
  next
    case False
    obtain s st1 where b: "poll_body p a st = (s, st1)" by (cases "poll_body p a st")
    note w = poll_body_writes [OF b]
    show ?thesis
    proof (cases s)
      case Continue
      with b False Cons.prems have "poll_loop p answers st1 = (r, st')"
        by (simp add: poll_loop_Cons)
      from Cons.IH [OF this] w Continue show ?thesis by auto
    next
      case Break
      with b False Cons.prems w show ?thesis by (auto simp: poll_loop_Cons)
    next
      case (Raise e)
      with b False Cons.prems w show ?thesis by (auto simp: poll_loop_Cons)
    qed
  qed
qed

lemma try_block_writes:
  assumes "try_block c url created answers st = (r, st')"
  shows "\<exists>ws. status_writes (effects st') = status_writes (effects st) @ ws \<and>
           status st' = last ws \<and>
           (ws = [Uploading] \<and> (\<exists>e. r = Threw e) \<or> ws = [Uploading, Processing] \<or>
            ws = [Uploading, Processing, Complete] \<and> r = Done)"
proof (cases "\<exists>resp p. created = Resolves resp \<and> ok resp \<and> json resp = Resolves p")
  case False
  with assms show ?thesis
    by (auto simp: try_block_def Let_def ops obs split: awaited.splits if_splits)
next
  case True
  then obtain resp p where cr: "created = Resolves resp" "ok resp" "json resp = Resolves p"
    by blast
  define st0 where "st0 = setStatus Processing
          (emit (FetchPost ''/api/replicate''
                   \<lparr>model = MODEL, image = url, scale_input = scale c,
                    face_enhance = enhanceFace c\<rparr>)
             (setStatusMessage ''Starting image processing...'' (setStatus Uploading st)))"
  have a: "status_writes (effects st0) = status_writes (effects st) @ [Uploading, Processing]"
    "status st0 = Processing"
    by (simp_all add: st0_def ops obs)
  have "try_block c url created answers st = poll_loop p answers st0"
    unfolding st0_def using cr by (rule try_block_polls)
  with assms have "poll_loop p answers st0 = (r, st')" by simp
  from poll_loop_writes [OF this] a show ?thesis by auto
qed

lemma handleProcess_writes:
  assumes "handleProcess c created answers st = (r, st')"
  shows "\<exists>ws. status_writes (effects st') = status_writes (effects st) @ ws \<and>
           one_submission ws \<and> status st' = last (status st # ws)"
proof (cases "\<exists>u f url. user c = Some u \<and> selectedFile c = Some f \<and> previewUrl c = Some url \<and> url \<noteq> []")
  case False
  with assms have "status_writes (effects st') = status_writes (effects st) @ [] \<and>
      one_submission [] \<and> status st' = last (status st # [])"
    by (auto simp: handleProcess_def ops obs split: option.splits)
  then show ?thesis by blast
next
  case True
  then obtain u f url where pres: "user c = Some u" "selectedFile c = Some f"
    "previewUrl c = Some url" "url \<noteq> []" by blast
  obtain r1 st1 where t: "try_block c url created answers st = (r1, st1)"
    by (cases "try_block c url created answers st")
  from try_block_writes [OF t] obtain ws where
    ws: "status_writes (effects st1) = status_writes (effects st) @ ws" "status st1 = last ws"
      "ws = [Uploading] \<and> (\<exists>e. r1 = Threw e) \<or> ws = [Uploading, Processing] \<or>
       ws = [Uploading, Processing, Complete] \<and> r1 = Done" by blast
  show ?thesis
  proof (cases r1)
    case (Threw e)
    with pres t assms have "st' = catch_block e st1" by (simp add: handleProcess_present)
    then have "status_writes (effects st') = status_writes (effects st) @ (ws @ [Error])"
      "status st' = Error"
      using ws(1) by (simp_all add: catch_block_def ops obs)
    moreover from ws(3) Threw have "one_submission (ws @ [Error])"
      by (auto simp: forward_def)
    moreover from ws(3) have "last (status st # ws @ [Error]) = Error" by auto
    ultimately show ?thesis by metis
  next
    case Done
    with pres t assms have "st' = st1" by (simp add: handleProcess_present)
    moreover from ws(3) Done have "one_submission ws" "ws \<noteq> []" by (auto simp: forward_def)
    ultimately show ?thesis using ws(1,2) by auto
  next
    case Awaiting
    with pres t assms have "st' = st1" by (simp add: handleProcess_present)
    moreover from ws(3) Awaiting have "one_submission ws" "ws \<noteq> []" by (auto simp: forward_def)
    ultimately show ?thesis using ws(1,2) by auto
  qed
qed

lemma only_forward_append:
  "only_forward s (xs @ ys) = (only_forward s xs \<and> only_forward (last (s # xs)) ys)"
  by (induction xs arbitrary: s) auto

lemma strictly_forward_only_forward: "strictly_forward s ws \<Longrightarrow> only_forward s ws"
  by (induction ws arbitrary: s) auto

lemma one_submission_only_forward: "one_submission ws \<Longrightarrow> only_forward s ws"
  by (cases ws) (auto simp: strictly_forward_only_forward)

text \<open>
  C7. Through any sequence of invocations, one after the other, with any answers of
  the network, every move of the status is forward in the order idle, uploading,
  processing, then complete or error, or else is a write of \<open>uploading\<close>. Within
  one invocation \<open>uploading\<close> is written first, if anything is, and every later
  write moves forward: the only backward move is the reset at the start of a submission.
\<close>

theorem status_moves_forward:
  "only_forward (status st) (concat (history invs st)) \<and>
   list_all one_submission (history invs st)"
proof (induction invs arbitrary: st)
  case Nil
  show ?case by simp
next
  case (Cons i invs)
  let ?st0 = "st\<lparr>effects := []\<rparr>"
  obtain r st' where h: "handleProcess (closure i) (created_answer i) (status_answers i) ?st0 = (r, st')"
    by (cases "handleProcess (closure i) (created_answer i) (status_answers i) ?st0")
  from handleProcess_writes [OF h] obtain ws where
    ws: "status_writes (effects st') = ws" "one_submission ws" "status st' = last (status st # ws)"
    by (auto simp: status_writes_def)
  from h ws(1) have hist: "history (i # invs) st = ws # history invs st'" by simp
  from Cons.IH [of st'] ws one_submission_only_forward [of ws "status st"]
  show ?case unfolding hist by (simp add: only_forward_append)
qed

theorem status_moves_forward_witness:
  "only_forward Idle (concat (history [bad_gateway, upscaled] initial)) \<and>
   history [bad_gateway, upscaled] initial
     = [[Uploading, Error], [Uploading, Processing, Complete]]"
  using status_moves_forward [of initial "[bad_gateway, upscaled]"]
  by (simp add: bad_gateway_def upscaled_def examples run obs)

section \<open>The error paths\<close>

lemma catch_block_result:
  "status (catch_block e st) = Error"
  "statusMessage (catch_block e st) = message_of e"
  "toasts (effects (catch_block e st)) = toasts (effects st) @ [''Processing failed. Please try again.'']"
  "LoggerError ''Processing failed:'' e \<in> set (effects (catch_block e st))"
  by (simp_all add: catch_block_def ops obs)

lemma poll_body_toasts:
  "toasts (effects (snd (poll_body p a st))) = toasts (effects st)"
  by (simp add: poll_body_def Let_def ops obs split: awaited.splits)

lemma poll_loop_toasts:
  "toasts (effects (snd (poll_loop p answers st))) = toasts (effects st)"
proof (induction answers arbitrary: st)
  case Nil
  then show ?case
    by (cases "terminal (status_field p)") (simp_all add: poll_loop_terminal poll_loop_Nil)
next
  case (Cons a answers)
  show ?case
  proof (cases "terminal (status_field p)")
    case True
    then show ?thesis by (simp add: poll_loop_terminal)
  next
    case False
    obtain s st' where b: "poll_body p a st = (s, st')" by (cases "poll_body p a st")
    then have "toasts (effects st') = toasts (effects st)"
      using poll_body_toasts [of p a st] by simp
    with b False Cons.IH [of st'] show ?thesis
      by (cases s) (simp_all add: poll_loop_Cons)
  qed
qed

lemma try_block_toasts:
  "toasts (effects (snd (try_block c url created answers st))) = toasts (effects st)"
proof -
  have "toasts (effects (snd (poll_loop p answers st0))) = toasts (effects st)"
    if "toasts (effects st0) = toasts (effects st)" for p st0
    using that poll_loop_toasts [of p answers st0] by simp
  then show ?thesis
    by (simp add: try_block_def Let_def ops obs split: awaited.splits)
qed

lemma handleProcess_threw:
  assumes "user c = Some u" "selectedFile c = Some f" "previewUrl c = Some url" "url \<noteq> []"
    and "try_block c url created answers st = (Threw e, st1)"
    and "handleProcess c created answers st = (r, st')"
  shows "r = Done \<and> status st' = Error \<and> statusMessage st' = message_of e \<and>
         LoggerError ''Processing failed:'' e \<in> set (effects st') \<and>
         toasts (effects st') = toasts (effects st) @ [''Processing failed. Please try again.'']"
proof -
  from assms have "r = Done" "st' = catch_block e st1" by (simp_all add: handleProcess_present)
  moreover have "toasts (effects st1) = toasts (effects st)"
    using try_block_toasts [of c url created answers st] assms(5) by simp
  ultimately show ?thesis by (simp add: catch_block_result)
qed

text \<open>What the loop body throws depends on the answer alone.\<close>

lemma poll_body_fails:
  "fails a \<Longrightarrow> \<exists>e. fst (poll_body p a st) = Raise e"
  by (auto simp: fails_def poll_body_def Let_def split: awaited.splits)

lemma poll_body_failed_status:
  "ok resp \<Longrightarrow> json resp = Resolves b \<Longrightarrow> status_field b = ''failed'' \<Longrightarrow>
   fst (poll_body p (Resolves resp) st) = Raise (ErrorObj (or_else (error_field b) ''Processing failed''))"
  by (simp add: poll_body_def Let_def)

lemma poll_loop_raises:
  assumes "\<not> terminal (status_field p)" and "list_all keeps_polling pre"
    and "\<And>st0. fst (poll_body p a st0) = Raise e"
  shows "fst (poll_loop p (pre @ a # post) st) = Threw e"
proof -
  from assms(1,2) have "fst (poll_loop p pre st) = Awaiting"
    by (simp add: poll_loop_Awaiting_iff)
  then have "poll_loop p (pre @ a # post) st = poll_loop p (a # post) (snd (poll_loop p pre st))"
    by (rule poll_loop_append_Awaiting)
  moreover obtain s st1 where b: "poll_body p a (snd (poll_loop p pre st)) = (s, st1)"
    by (cases "poll_body p a (snd (poll_loop p pre st))")
  moreover from b assms(3) [of "snd (poll_loop p pre st)"] have "s = Raise e" by simp
  ultimately show ?thesis using assms(1) by (simp add: poll_loop_Cons)
qed

lemma poll_body_step_indep: "fst (poll_body p a st) = fst (poll_body p a st0)"
  by (simp add: poll_body_def Let_def split: awaited.splits)

lemma try_block_throws:
  assumes "(\<exists>e. created = Rejects e)
      \<or> (\<exists>resp. created = Resolves resp \<and> (\<not> ok resp \<or> (\<exists>e. json resp = Rejects e)))
      \<or> (\<exists>resp p pre a post. created = Resolves resp \<and> ok resp \<and> json resp = Resolves p \<and>
            \<not> terminal (status_field p) \<and> answers = pre @ a # post \<and>
            list_all keeps_polling pre \<and> fails a)"
  shows "\<exists>e. fst (try_block c url created answers st) = Threw e"
  using assms
proof (elim disjE exE conjE)
  fix e assume "created = Rejects e"
  then show ?thesis by (simp add: try_block_def Let_def)
next
  fix resp assume "created = Resolves resp" "\<not> ok resp"
  then show ?thesis by (cases "json resp") (simp_all add: try_block_def Let_def)
next
  fix resp e assume "created = Resolves resp" "json resp = Rejects e"
  then show ?thesis by (simp add: try_block_def Let_def)
next
  fix resp p pre a post
  assume cr: "created = Resolves resp" "ok resp" "json resp = Resolves p"
    and nt: "\<not> terminal (status_field p)"
    and an: "answers = pre @ a # post" "list_all keeps_polling pre" "fails a"
  from an(3) obtain e where "fst (poll_body p a st) = Raise e"
    using poll_body_fails by blast
  then have "fst (poll_body p a st0) = Raise e" for st0
    using poll_body_step_indep [of p a st0 st] by simp
  with nt an(2) have "fst (poll_loop p (pre @ a # post) st0) = Threw e" for st0
    by (rule poll_loop_raises)
  with cr an(1) show ?thesis by (simp add: try_block_polls)
qed

text \<open>
  C3 as stated fails. With no user the status stays idle and no message is recorded:
  only the log-in toast appears. And when the creation response itself reports
  \<open>failed\<close>, the status stays at processing and there is no notification.
\<close>

theorem no_user_or_failed_creation_shows_no_error:
  "status (snd (handleProcess (signed_in\<lparr>user := None\<rparr>) (answer_ok ''starting'' None None)
                  [] initial)) = Idle \<and>
   statusMessage (snd (handleProcess (signed_in\<lparr>user := None\<rparr>) (answer_ok ''starting'' None None)
                  [] initial)) = [] \<and>
   status (snd (handleProcess signed_in (answer_ok ''failed'' None (Some ''oom'')) [] initial))
     = Processing \<and>
   toasts (effects (snd (handleProcess signed_in (answer_ok ''failed'' None (Some ''oom'')) []
                           initial))) = []"
  by (simp add: examples run obs)

text \<open>
  C3, amended. Every error thrown inside the \<open>try\<close> block ends the same way: a
  rejected creation request, a creation response that is not a success or whose body
  does not parse, and, after a non-terminal creation response and any number of
  answers that keep the loop going, a status request that is rejected, is not a
  success, does not parse or reports \<open>failed\<close>. The status becomes error, the
  message of the thrown error is recorded (the text \<open>Failed to process image\<close> when
  the thrown value is not an \<open>Error\<close>) and the toast
  \<open>Processing failed. Please try again.\<close> is triggered. Missing authentication
  is handled apart: it triggers the toast \<open>Please log in to continue\<close> and leaves
  status and message as they were.
\<close>

theorem thrown_errors_end_in_error:
  assumes "handleProcess c created answers st = (r, st')"
  shows "(user c = None \<longrightarrow>
            status st' = status st \<and> statusMessage st' = statusMessage st \<and>
            toasts (effects st') = toasts (effects st) @ [''Please log in to continue'']) \<and>
         ((\<exists>u f url. user c = Some u \<and> selectedFile c = Some f \<and> previewUrl c = Some url \<and>
              url \<noteq> []) \<and>
          ((\<exists>e. created = Rejects e)
           \<or> (\<exists>resp. created = Resolves resp \<and> (\<not> ok resp \<or> (\<exists>e. json resp = Rejects e)))
           \<or> (\<exists>resp p pre a post. created = Resolves resp \<and> ok resp \<and> json resp = Resolves p \<and>
                 \<not> terminal (status_field p) \<and> answers = pre @ a # post \<and>
                 list_all keeps_polling pre \<and> fails a)) \<longrightarrow>
            r = Done \<and> status st' = Error \<and>
            (\<exists>e. LoggerError ''Processing failed:'' e \<in> set (effects st') \<and>
                 statusMessage st' = message_of e) \<and>
            toasts (effects st') = toasts (effects st) @ [''Processing failed. Please try again.''])"
  (is "(?noauth \<longrightarrow> ?toast_only) \<and> (?thrown \<longrightarrow> ?shown)")
proof (rule conjI)
  show "?noauth \<longrightarrow> ?toast_only"
    using assms by (auto simp: handleProcess_def ops obs)
next
  show "?thrown \<longrightarrow> ?shown"
  proof (rule impI)
    assume h: ?thrown
    then obtain u f url where pres: "user c = Some u" "selectedFile c = Some f"
      "previewUrl c = Some url" "url \<noteq> []" by blast
    from h obtain e where "fst (try_block c url created answers st) = Threw e"
      using try_block_throws [of created answers c url st] by blast
    then obtain st1 where "try_block c url created answers st = (Threw e, st1)"
      by (cases "try_block c url created answers st") simp
    from handleProcess_threw [OF pres this assms] show ?shown by blast
  qed
qed

theorem thrown_errors_end_in_error_witness:
  "status (snd (handleProcess signed_in (answer_ok ''starting'' None None)
                  [answer_ok ''processing'' None None, answer_gone] initial)) = Error \<and>
   statusMessage (snd (handleProcess signed_in (answer_ok ''starting'' None None)
                  [answer_ok ''processing'' None None, answer_gone] initial))
     = ''Failed to check prediction status'' \<and>
   toasts (effects (snd (handleProcess signed_in (answer_ok ''starting'' None None)
                  [answer_ok ''processing'' None None, answer_gone] initial)))
     = [''Processing failed. Please try again.''] \<and>
   toasts (effects (snd (handleProcess (signed_in\<lparr>user := None\<rparr>) (answer_ok ''starting'' None None)
                  [] initial))) = [''Please log in to continue'']"
proof -
  let ?answers = "[answer_ok ''processing'' None None, answer_gone]"
  let ?run = "handleProcess signed_in (answer_ok ''starting'' None None) ?answers initial"
  let ?out = "handleProcess (signed_in\<lparr>user := None\<rparr>) (answer_ok ''starting'' None None) [] initial"
  have r: "?run = (fst ?run, snd ?run)" by simp
  have pres: "\<exists>u f url. user signed_in = Some u \<and> selectedFile signed_in = Some f \<and>
      previewUrl signed_in = Some url \<and> url \<noteq> []"
    by (simp add: signed_in_def)
  have "answer_ok ''starting'' None None
        = Resolves \<lparr>ok = True, json = Resolves \<lparr>id_field = ''p1'', status_field = ''starting'',
            output_field = None, error_field = None\<rparr>\<rparr> \<and>
      ok \<lparr>ok = True, json = Resolves \<lparr>id_field = ''p1'', status_field = ''starting'',
            output_field = None, error_field = None\<rparr>\<rparr> \<and>
      json \<lparr>ok = True, json = Resolves \<lparr>id_field = ''p1'', status_field = ''starting'',
            output_field = None, error_field = None\<rparr>\<rparr>
        = Resolves \<lparr>id_field = ''p1'', status_field = ''starting'',
            output_field = None, error_field = None\<rparr> \<and>
      \<not> terminal (status_field \<lparr>id_field = ''p1'', status_field = ''starting'',
            output_field = None, error_field = None\<rparr>) \<and>
      ?answers = [answer_ok ''processing'' None None] @ answer_gone # [] \<and>
      list_all keeps_polling [answer_ok ''processing'' None None] \<and> fails answer_gone"
    by (simp add: answer_ok_def answer_gone_def terminal_def keeps_polling_def fails_def)
  then have kind: "(\<exists>e. answer_ok ''starting'' None None = Rejects e)
      \<or> (\<exists>resp. answer_ok ''starting'' None None = Resolves resp \<and>
             (\<not> ok resp \<or> (\<exists>e. json resp = Rejects e)))
      \<or> (\<exists>resp p pre a post. answer_ok ''starting'' None None = Resolves resp \<and> ok resp \<and>
             json resp = Resolves p \<and> \<not> terminal (status_field p) \<and>
             ?answers = pre @ a # post \<and> list_all keeps_polling pre \<and> fails a)"
    by blast
  from thrown_errors_end_in_error [OF r] pres kind
  have "status (snd ?run) = Error"
    and "\<exists>e. LoggerError ''Processing failed:'' e \<in> set (effects (snd ?run)) \<and>
           statusMessage (snd ?run) = message_of e"
    and "toasts (effects (snd ?run)) = toasts (effects initial) @ [''Processing failed. Please try again.'']"
    by blast+
  moreover have "statusMessage (snd ?run) = ''Failed to check prediction status''"
    by (simp add: examples answer_gone_def run)
  moreover have o: "?out = (fst ?out, snd ?out)" by simp
  have "toasts (effects (snd ?out)) = toasts (effects initial) @ [''Please log in to continue'']"
    using thrown_errors_end_in_error [OF o] by (simp add: signed_in_def)
  ultimately show ?thesis by (simp add: initial_def toasts_def)
qed

text \<open>
  The loop body on a status response that reports \<open>failed\<close> (lines 89 to 91): the
  invocation ends with status error, and the message is the error field of that
  response, or \<open>Processing failed\<close> when the field is absent or empty.
\<close>

lemma polled_failure_message:
  assumes "user c = Some u" and "selectedFile c = Some f" and "previewUrl c = Some url"
    and "url \<noteq> []"
    and "created = Resolves resp" and "ok resp" and "json resp = Resolves prediction"
    and "\<not> terminal (status_field prediction)"
    and "answers = pre @ Resolves a # post" and "list_all keeps_polling pre"
    and "ok a" and "json a = Resolves b" and "status_field b = ''failed''"
    and "handleProcess c created answers st = (r, st')"
  shows "r = Done \<and> status st' = Error \<and>
         (\<forall>m. error_field b = Some m \<and> m \<noteq> [] \<longrightarrow> statusMessage st' = m) \<and>
         (error_field b = None \<or> error_field b = Some [] \<longrightarrow>
            statusMessage st' = ''Processing failed'')"
proof -
  let ?e = "ErrorObj (or_else (error_field b) ''Processing failed'')"
  have "fst (poll_body prediction (Resolves a) st0) = Raise ?e" for st0
    using assms(11-13) by (rule poll_body_failed_status)
  with assms(8,10) have "fst (poll_loop prediction (pre @ Resolves a # post) st0) = Threw ?e" for st0
    by (rule poll_loop_raises)
  with assms(5-7,9) have "fst (try_block c url created answers st) = Threw ?e"
    by (simp add: try_block_polls)
  then obtain st1 where "try_block c url created answers st = (Threw ?e, st1)"
    by (cases "try_block c url created answers st") simp
  from handleProcess_threw [OF assms(1-4) this assms(14)]
  have "r = Done" "status st' = Error"
    "statusMessage st' = or_else (error_field b) ''Processing failed''"
    by (simp_all add: message_of_def)
  then show ?thesis by (auto simp: or_else_def)
qed

lemma polled_failure_message_example:
  "status (snd (handleProcess signed_in (answer_ok ''starting'' None None)
                  [answer_ok ''processing'' None None, answer_ok ''failed'' None (Some ''oom'')]
                  initial)) = Error \<and>
   statusMessage (snd (handleProcess signed_in (answer_ok ''starting'' None None)
                  [answer_ok ''processing'' None None, answer_ok ''failed'' None (Some ''oom'')]
                  initial)) = ''oom''"
proof -
  let ?answers = "[answer_ok ''processing'' None None, answer_ok ''failed'' None (Some ''oom'')]"
  let ?run = "handleProcess signed_in (answer_ok ''starting'' None None) ?answers initial"
  let ?p = "\<lparr>id_field = ''p1'', status_field = ''starting'', output_field = None,
             error_field = None\<rparr>"
  let ?b = "\<lparr>id_field = ''p1'', status_field = ''failed'', output_field = None,
             error_field = Some ''oom''\<rparr>"
  have r: "?run = (fst ?run, snd ?run)" by simp
  have "status (snd ?run) = Error \<and>
      (\<forall>m. error_field ?b = Some m \<and> m \<noteq> [] \<longrightarrow> statusMessage (snd ?run) = m)"
    using polled_failure_message [of signed_in "''ada''" "''cat.png''" "''data:image/png;base64,AAAA''"
        "answer_ok ''starting'' None None" "\<lparr>ok = True, json = Resolves ?p\<rparr>" ?p
        ?answers "[answer_ok ''processing'' None None]" "\<lparr>ok = True, json = Resolves ?b\<rparr>" "[]"
        ?b initial "fst ?run" "snd ?run"]
    by (simp add: signed_in_def answer_ok_def terminal_def keeps_polling_def)
  then show ?thesis by simp
qed

text \<open>
  C5. A remote status \<open>failed\<close> is to end the workflow in status error with the
  service's error message, in the creation response as in a later status response.
  The loop body does so for a status response (the lemma above). For the creation
  response the code does not: the guard of line 77 takes \<open>failed\<close> as terminal and
  skips the loop, and nothing outside the loop throws. On a creation response with
  status \<open>failed\<close> and error \<open>oom\<close> the invocation returns with the status at
  processing and the message \<open>Starting image processing...\<close>, with no status
  request, no log entry and no notification.
\<close>

theorem failed_creation_left_at_processing:
  "handleProcess signed_in (answer_ok ''failed'' None (Some ''oom''))
     [answer_ok ''failed'' None (Some ''oom'')] initial =
   (Done,
    \<lparr>status = Processing, statusMessage = ''Starting image processing...'',
     effects =
       [SetStatus Uploading, SetStatusMessage ''Starting image processing...'',
        FetchPost ''/api/replicate''
          \<lparr>model = MODEL, image = ''data:image/png;base64,AAAA'', scale_input = 4,
           face_enhance = False\<rparr>,
        SetStatus Processing]\<rparr>)"
  by (simp add: examples run)

text \<open>
  C6 as stated fails. An error field that is present but empty yields the generic
  message, and a body that does not parse yields the message of the parse error, not
  the generic one.
\<close>

theorem empty_or_unparsable_error_body:
  "statusMessage (snd (handleProcess signed_in (answer_http_error (Some [])) [] initial))
     = ''Failed to process image'' \<and>
   statusMessage (snd (handleProcess signed_in answer_unparsable [] initial))
     = ''Unexpected token < in JSON at position 0''"
  by (simp add: examples run)

text \<open>
  C6, amended. When the creation response is not a success, a component at idle goes
  idle, uploading, error. If the body parses, the message is its error field when that
  is present and not empty, and \<open>Failed to process image\<close> when it is absent or
  empty; if the body does not parse, the message is that of the parse error.
\<close>

theorem creation_http_failure_message:
  assumes "user c = Some u" and "selectedFile c = Some f" and "previewUrl c = Some url"
    and "url \<noteq> []"
    and "created = Resolves resp" and "\<not> ok resp"
    and "status st = Idle" and "effects st = []"
    and "handleProcess c created answers st = (r, st')"
  shows "r = Done \<and> status st # status_writes (effects st') = [Idle, Uploading, Error] \<and>
         status st' = Error \<and>
         (\<forall>b m. json resp = Resolves b \<and> error_field b = Some m \<and> m \<noteq> [] \<longrightarrow>
            statusMessage st' = m) \<and>
         (\<forall>b. json resp = Resolves b \<and> (error_field b = None \<or> error_field b = Some []) \<longrightarrow>
            statusMessage st' = ''Failed to process image'') \<and>
         (\<forall>e. json resp = Rejects e \<longrightarrow> statusMessage st' = message_of e)"
proof (cases "json resp")
  case (Resolves b)
  with assms show ?thesis
    by (auto simp: handleProcess_present try_block_def catch_block_def message_of_def
        or_else_def Let_def ops obs)
next
  case (Rejects e)
  with assms show ?thesis
    by (auto simp: handleProcess_present try_block_def catch_block_def Let_def ops obs)
qed

theorem creation_http_failure_message_witness:
  "status_writes (effects (snd (handleProcess signed_in (answer_http_error (Some ''bad gateway''))
                                  [] initial))) = [Uploading, Error] \<and>
   statusMessage (snd (handleProcess signed_in (answer_http_error (Some ''bad gateway''))
                         [] initial)) = ''bad gateway'' \<and>
   statusMessage (snd (handleProcess signed_in (answer_http_error None) [] initial))
     = ''Failed to process image''"
proof -
  let ?run = "handleProcess signed_in (answer_http_error (Some ''bad gateway'')) [] initial"
  let ?b = "\<lparr>id_field = [], status_field = [], output_field = None,
             error_field = Some ''bad gateway''\<rparr>"
  let ?plain = "handleProcess signed_in (answer_http_error None) [] initial"
  let ?empty = "\<lparr>id_field = [], status_field = [], output_field = None, error_field = None\<rparr>"
  have a: "status initial # status_writes (effects (snd ?run)) = [Idle, Uploading, Error] \<and>
      (\<forall>b m. json \<lparr>ok = False, json = Resolves ?b\<rparr> = Resolves b \<and> error_field b = Some m \<and> m \<noteq> []
         \<longrightarrow> statusMessage (snd ?run) = m)"
    using creation_http_failure_message [of signed_in "''ada''" "''cat.png''" "''data:image/png;base64,AAAA''"
        "answer_http_error (Some ''bad gateway'')" "\<lparr>ok = False, json = Resolves ?b\<rparr>"
        initial "[]" "fst ?run" "snd ?run"]
    by (simp add: signed_in_def answer_http_error_def initial_def)
  have b: "status initial # status_writes (effects (snd ?plain)) = [Idle, Uploading, Error] \<and>
      (\<forall>b. json \<lparr>ok = False, json = Resolves ?empty\<rparr> = Resolves b \<and>
         (error_field b = None \<or> error_field b = Some []) \<longrightarrow>
         statusMessage (snd ?plain) = ''Failed to process image'')"
    using creation_http_failure_message [of signed_in "''ada''" "''cat.png''" "''data:image/png;base64,AAAA''"
        "answer_http_error None" "\<lparr>ok = False, json = Resolves ?empty\<rparr>"
        initial "[]" "fst ?plain" "snd ?plain"]
    by (simp add: signed_in_def answer_http_error_def initial_def)
  from a b show ?thesis by simp
qed

end
